theory Spec2Isabelle
  imports Main
begin

section \<open>Wordlist generator: the generation and transformation engine\<close>

text \<open>
  A shallow embedding of \<^verbatim>\<open>src/wordlist_gen.py\<close> (class \<^verbatim>\<open>WordlistGenerator\<close>).

  A Python string is the list of its Unicode code points (\<open>pystr\<close>); \<open>str\<close> turns an
  ASCII literal into such a list. The store \<^verbatim>\<open>self.wordlist\<close> is a set of strings,
  passed to every operation and returned updated. Output written with \<^verbatim>\<open>print\<close> is
  left out, except the count \<^verbatim>\<open>apply_leetspeak\<close> reports, which that operation returns
  next to the store.
\<close>

subsection \<open>Characters and strings\<close>

type_synonym pystr = "nat list"

type_synonym store = "pystr set"

datatype error = IndexError | KeyError | ValueError

definition cp :: "char \<Rightarrow> nat" where
  "cp c = of_char c"

definition str :: "string \<Rightarrow> pystr" where
  "str s = map cp s"

text \<open>
  \<^verbatim>\<open>str.lower\<close>, character by character. \<open>A\<close> to \<open>Z\<close> become \<open>a\<close> to \<open>z\<close>. The
  code point U+0130 (capital I with dot above, 304) becomes the two code points \<open>i\<close> and
  U+0307 (775): it is the only character whose lower-case form is longer than one
  character, and the only one outside ASCII whose lower-case form contains a letter of
  the leetspeak table. Every other character outside ASCII is left as it is here;
  Python gives some single character outside the leetspeak table for it.
\<close>

definition lower_cp :: "nat \<Rightarrow> pystr" where
  "lower_cp c =
     (if 65 \<le> c \<and> c \<le> 90 then [c + 32] else if c = 304 then [105, 775] else [c])"

definition lower :: "pystr \<Rightarrow> pystr" where
  "lower s = concat (map lower_cp s)"

text \<open>
  \<^verbatim>\<open>str.upper\<close> and \<^verbatim>\<open>str.isdigit\<close> as they act on ASCII: \<open>a\<close> to \<open>z\<close> become \<open>A\<close>
  to \<open>Z\<close>, and the digits are \<open>0\<close> to \<open>9\<close>.
\<close>

definition upper_char :: "nat \<Rightarrow> nat" where
  "upper_char c = (if 97 \<le> c \<and> c \<le> 122 then c - 32 else c)"

definition upper :: "pystr \<Rightarrow> pystr" where
  "upper s = map upper_char s"

definition is_digit :: "nat \<Rightarrow> bool" where
  "is_digit c = (48 \<le> c \<and> c \<le> 57)"

text \<open>\<^verbatim>\<open>str.capitalize\<close>: the first character upper-cased, all the others lower-cased.\<close>

fun capitalize :: "pystr \<Rightarrow> pystr" where
  "capitalize [] = []"
| "capitalize (c # cs) = upper_char c # lower cs"

text \<open>\<^verbatim>\<open>xs[i]\<close> for an index that is not negative: out of range raises \<^verbatim>\<open>IndexError\<close>.\<close>

definition py_index :: "'a list \<Rightarrow> nat \<Rightarrow> error + 'a" where
  "py_index xs i = (if i < length xs then Inr (xs ! i) else Inl IndexError)"

text \<open>
  \<^verbatim>\<open>xs[i] = v\<close> on a copy of the list, for an index that is not negative: out of range
  raises \<^verbatim>\<open>IndexError\<close>.
\<close>

definition py_setitem :: "'a list \<Rightarrow> nat \<Rightarrow> 'a \<Rightarrow> error + 'a list" where
  "py_setitem xs i v = (if i < length xs then Inr (xs[i := v]) else Inl IndexError)"

text \<open>\<^verbatim>\<open>xs[i:j]\<close> for indices that are not negative: a slice never raises.\<close>

definition py_slice :: "'a list \<Rightarrow> nat \<Rightarrow> nat \<Rightarrow> 'a list" where
  "py_slice xs i j = take (j - i) (drop i xs)"

text \<open>\<^verbatim>\<open>xs[-k:]\<close> for \<open>k > 0\<close>: the last \<open>k\<close> elements, or all of a shorter list.\<close>

definition py_last_n :: "'a list \<Rightarrow> nat \<Rightarrow> 'a list" where
  "py_last_n xs k = drop (length xs - k) xs"

subsection \<open>The fixed tables\<close>

definition ascii_lowercase :: pystr where
  "ascii_lowercase = str ''abcdefghijklmnopqrstuvwxyz''"

definition ascii_uppercase :: pystr where
  "ascii_uppercase = str ''ABCDEFGHIJKLMNOPQRSTUVWXYZ''"

definition digits :: pystr where
  "digits = str ''0123456789''"

text \<open>\<^verbatim>\<open>string.punctuation\<close>: the 32 ASCII punctuation characters in code order.\<close>

definition punctuation :: pystr where
  "punctuation = [33..<48] @ [58..<65] @ [91..<97] @ [123..<127]"

definition charset_map :: "pystr \<rightharpoonup> pystr" where
  "charset_map = map_of
     [(str ''?l'', ascii_lowercase),
      (str ''?u'', ascii_uppercase),
      (str ''?d'', digits),
      (str ''?s'', punctuation),
      (str ''?a'', ascii_lowercase @ ascii_uppercase @ digits @ punctuation)]"

definition leetspeak_map :: "nat \<rightharpoonup> pystr" where
  "leetspeak_map = map_of
     [(cp (CHR ''a''), str ''4@''),
      (cp (CHR ''e''), str ''3''),
      (cp (CHR ''i''), str ''1!''),
      (cp (CHR ''o''), str ''0''),
      (cp (CHR ''s''), str ''5$''),
      (cp (CHR ''t''), str ''7''),
      (cp (CHR ''l''), str ''1''),
      (cp (CHR ''g''), str ''9'')]"

subsection \<open>Pattern parsing (\<^verbatim>\<open>generate_from_pattern\<close>, the \<^verbatim>\<open>while\<close> loop)\<close>

text \<open>
  The loop over the index \<open>i\<close> with the list \<open>char_sets\<close> built so far. A literal
  character is the one-element list \<^verbatim>\<open>[pattern[i]]\<close>.
\<close>

function parse_loop :: "pystr \<Rightarrow> nat \<Rightarrow> pystr list \<Rightarrow> error + pystr list" where
  "parse_loop pattern i char_sets =
     (if i < length pattern then
        (case py_index pattern i of
           Inl e \<Rightarrow> Inl e
         | Inr c \<Rightarrow>
            (case (if c = cp (CHR ''?'') \<and> i + 1 < length pattern
                   then charset_map (py_slice pattern i (i + 2)) else None) of
               Some cs \<Rightarrow> parse_loop pattern (i + 2) (char_sets @ [cs])
             | None \<Rightarrow> parse_loop pattern (i + 1) (char_sets @ [[c]])))
      else Inr char_sets)"
  by pat_completeness auto
termination
  by (relation "measure (\<lambda>(pattern, i, char_sets). length pattern - i)") auto

definition parse_pattern :: "pystr \<Rightarrow> error + pystr list" where
  "parse_pattern pattern = parse_loop pattern 0 []"

text \<open>
  The parsing rule in the specification's words, by recursion on the text that is
  left: a \<open>?\<close> and the next character that together name a known character set make one
  slot; any other character is a literal slot of its own.
\<close>

fun spec_slots :: "pystr \<Rightarrow> pystr list" where
  "spec_slots [] = []"
| "spec_slots [c] = [[c]]"
| "spec_slots (c # d # rest) =
     (case (if c = cp (CHR ''?'') then charset_map [c, d] else None) of
        Some cs \<Rightarrow> cs # spec_slots rest
      | None \<Rightarrow> [c] # spec_slots (d # rest))"

subsection \<open>Enumeration (\<^verbatim>\<open>itertools.product\<close>) and the capped loops\<close>

text \<open>
  \<^verbatim>\<open>itertools.product(*char_sets)\<close>: the tuples in lexicographic order, the last
  position changing fastest. A tuple of characters joined by \<^verbatim>\<open>''.join\<close> is the
  string of these characters, so each tuple is already the word.
\<close>

fun itertools_product :: "'a list list \<Rightarrow> 'a list list" where
  "itertools_product [] = [[]]"
| "itertools_product (xs # xss) =
     concat (map (\<lambda>x. map ((#) x) (itertools_product xss)) xs)"

text \<open>How a generation call ends: its loops ran out, it left at the cap, or it raised.\<close>

datatype exit = Finished | Capped | Raised error

text \<open>The test \<^verbatim>\<open>count and generated >= count\<close>: \<^verbatim>\<open>None\<close> and \<open>0\<close> are false.\<close>

definition stop_now :: "int option \<Rightarrow> nat \<Rightarrow> bool" where
  "stop_now count generated =
     (case count of None \<Rightarrow> False | Some c \<Rightarrow> c \<noteq> 0 \<and> c \<le> int generated)"

text \<open>
  The body shared by both generators, over the words still to come: add the word, count
  it, and leave when the cap is reached. The state is the store and \<^verbatim>\<open>generated\<close>.
\<close>

fun product_loop :: "int option \<Rightarrow> pystr list \<Rightarrow> store \<times> nat \<Rightarrow> (store \<times> nat) \<times> exit" where
  "product_loop count [] (wordlist, generated) = ((wordlist, generated), Finished)"
| "product_loop count (word # combos) (wordlist, generated) =
     (if stop_now count (generated + 1) then ((insert word wordlist, generated + 1), Capped)
      else product_loop count combos (insert word wordlist, generated + 1))"

definition generate_from_pattern :: "pystr \<Rightarrow> int option \<Rightarrow> store \<Rightarrow> (store \<times> nat) \<times> exit" where
  "generate_from_pattern pattern count wordlist =
     (case parse_pattern pattern of
        Inl e \<Rightarrow> ((wordlist, 0), Raised e)
      | Inr char_sets \<Rightarrow>
          if char_sets = [] then ((wordlist, 0), Finished)
          else product_loop count (itertools_product char_sets) (wordlist, 0))"

text \<open>
  \<^verbatim>\<open>generate_from_charset\<close>: the outer loop over \<^verbatim>\<open>range(min_len, max_len + 1)\<close>.
  \<^verbatim>\<open>itertools.product(charset, repeat=length)\<close> raises \<^verbatim>\<open>ValueError\<close> for a negative
  \<^verbatim>\<open>repeat\<close>; \<^verbatim>\<open>return\<close> at the cap leaves both loops.
\<close>

fun length_loop :: "pystr \<Rightarrow> int option \<Rightarrow> int list \<Rightarrow> store \<times> nat \<Rightarrow> (store \<times> nat) \<times> exit" where
  "length_loop charset count [] st = (st, Finished)"
| "length_loop charset count (len # lens) st =
     (if len < 0 then (st, Raised ValueError)
      else (case product_loop count (itertools_product (replicate (nat len) charset)) st of
              (st', Finished) \<Rightarrow> length_loop charset count lens st'
            | (st', ex) \<Rightarrow> (st', ex)))"

definition generate_from_charset ::
    "pystr \<Rightarrow> int \<Rightarrow> int \<Rightarrow> int option \<Rightarrow> store \<Rightarrow> (store \<times> nat) \<times> exit" where
  "generate_from_charset charset min_len max_len count wordlist =
     length_loop charset count [min_len..max_len] (wordlist, 0)"

text \<open>
  The words the two nested loops of \<^verbatim>\<open>generate_from_charset\<close> walk, in their order:
  for each length in turn, every tuple of that length over the alphabet.
\<close>

definition words_of_lengths :: "pystr \<Rightarrow> int list \<Rightarrow> pystr list" where
  "words_of_lengths charset lens =
     concat (map (\<lambda>len. itertools_product (replicate (nat len) charset)) lens)"

definition charset_words :: "pystr \<Rightarrow> int \<Rightarrow> int \<Rightarrow> pystr list" where
  "charset_words charset min_len max_len = words_of_lengths charset [min_len..max_len]"

text \<open>The words \<^verbatim>\<open>generate_from_pattern\<close> walks: none for a pattern without slots.\<close>

definition pattern_words :: "pystr \<Rightarrow> pystr list" where
  "pattern_words pattern =
     (case parse_pattern pattern of
        Inl e \<Rightarrow> []
      | Inr char_sets \<Rightarrow> if char_sets = [] then [] else itertools_product char_sets)"

subsection \<open>Personal information (\<^verbatim>\<open>add_personal_info_combinations\<close>)\<close>

record personal_info =
  name :: "pystr option"
  phone :: "pystr option"
  dob :: "pystr option"
  father_name :: "pystr option"
  mother_name :: "pystr option"
  place :: "pystr option"

text \<open>
  \<^verbatim>\<open>itertools.combinations(xs, r)\<close>: the sublists of \<open>r\<close> elements, in the order of
  the positions they take in \<open>xs\<close>.
\<close>

fun itertools_combinations :: "'a list \<Rightarrow> nat \<Rightarrow> 'a list list" where
  "itertools_combinations xs 0 = [[]]"
| "itertools_combinations [] (Suc r) = []"
| "itertools_combinations (x # xs) (Suc r) =
     map ((#) x) (itertools_combinations xs r) @ itertools_combinations xs (Suc r)"

text \<open>A field is used when it is given and not the empty string (\<^verbatim>\<open>if name:\<close>).\<close>

definition base_words :: "personal_info \<Rightarrow> pystr list" where
  "base_words r =
     (case name r of
        Some n \<Rightarrow> if n \<noteq> [] then [n, lower n, upper n, capitalize n] else []
      | None \<Rightarrow> []) @
     (case father_name r of
        Some f \<Rightarrow> if f \<noteq> [] then [f, lower f, capitalize f] else []
      | None \<Rightarrow> []) @
     (case mother_name r of
        Some m \<Rightarrow> if m \<noteq> [] then [m, lower m, capitalize m] else []
      | None \<Rightarrow> []) @
     (case place r of
        Some p \<Rightarrow> if p \<noteq> [] then [p, lower p, upper p, capitalize p] else []
      | None \<Rightarrow> [])"

text \<open>
  The title-case form of a name or place in the specification's words: the first
  letter capitalised, the other characters as they are. (The code calls
  \<^verbatim>\<open>str.capitalize\<close>, which is \<open>capitalize\<close> above.)
\<close>

fun spec_title_case :: "pystr \<Rightarrow> pystr" where
  "spec_title_case [] = []"
| "spec_title_case (c # cs) = upper_char c # cs"

text \<open>\<^verbatim>\<open>dob.replace('/', '').replace('-', '')\<close>\<close>

definition dob_clean :: "pystr \<Rightarrow> pystr" where
  "dob_clean d = filter (\<lambda>c. c \<noteq> cp (CHR ''-'')) (filter (\<lambda>c. c \<noteq> cp (CHR ''/'')) d)"

definition dob_variants :: "pystr option \<Rightarrow> pystr list" where
  "dob_variants field =
     (case field of
        None \<Rightarrow> []
      | Some d \<Rightarrow>
          if d = [] then []
          else if 8 \<le> length (dob_clean d) then
            (let day = py_slice (dob_clean d) 0 2;
                 month = py_slice (dob_clean d) 2 4;
                 year = py_slice (dob_clean d) 4 8;
                 year_short = drop 2 year
             in [dob_clean d, day @ month @ year, day @ month @ year_short,
                 year, year_short, day @ month, month @ year])
          else [])"

definition phone_variants :: "pystr option \<Rightarrow> pystr list" where
  "phone_variants field =
     (case field of
        None \<Rightarrow> []
      | Some p \<Rightarrow>
          if p = [] then []
          else (let phone_clean = filter is_digit p
                in [phone_clean, py_last_n phone_clean 4, py_last_n phone_clean 6,
                    py_last_n phone_clean 8]))"

definition common_suffixes :: "pystr list" where
  "common_suffixes =
     [str ''123'', str ''1234'', str ''12345'', str ''!'', str ''@'', str ''#'', str ''123!'', str ''2023'', str ''2024'', str ''2025'']"

definition common_prefixes :: "pystr list" where
  "common_prefixes = [str ''@'', str ''#'', str ''my'']"

text \<open>What the body of the loop over \<^verbatim>\<open>base_words\<close> adds for one word, in its order.\<close>

definition word_insertions :: "pystr list \<Rightarrow> pystr list \<Rightarrow> pystr \<Rightarrow> pystr list" where
  "word_insertions dob_vars phone_vars word =
     (if word = [] then []
      else [word] @
           map (\<lambda>suffix. word @ suffix) common_suffixes @
           map (\<lambda>prefix. prefix @ word) common_prefixes @
           concat (map (\<lambda>dob_var. [word @ dob_var, dob_var @ word]) dob_vars) @
           concat (map (\<lambda>phone_var. [word @ phone_var, phone_var @ word]) phone_vars))"

definition pair_insertions :: "pystr list \<Rightarrow> pystr list" where
  "pair_insertions bws =
     (if 2 \<le> length bws then map concat (itertools_combinations (take 4 bws) 2) else [])"

definition add_personal_info_combinations :: "personal_info \<Rightarrow> store \<Rightarrow> store" where
  "add_personal_info_combinations r wordlist =
     fold insert
       (concat (map (word_insertions (dob_variants (dob r)) (phone_variants (phone r)))
                  (base_words r)) @
        pair_insertions (base_words r))
       wordlist"

subsection \<open>Leetspeak (\<^verbatim>\<open>apply_leetspeak\<close>)\<close>

text \<open>
  The positions are those of \<^verbatim>\<open>word.lower()\<close>, which is longer than the word when the
  word holds U+0130.
\<close>

definition leet_positions :: "pystr \<Rightarrow> (nat \<times> nat) list" where
  "leet_positions word =
     filter (\<lambda>(i, char). leetspeak_map char \<noteq> None) (enumerate 0 (lower word))"

text \<open>
  A \<^verbatim>\<open>for\<close> loop whose body adds strings to \<^verbatim>\<open>new_words\<close> or raises: the strings
  added, in their order, or the first exception, which ends the call.
\<close>

fun for_each :: "('a \<Rightarrow> error + 'b list) \<Rightarrow> 'a list \<Rightarrow> error + 'b list" where
  "for_each body [] = Inr []"
| "for_each body (x # xs) =
     (case body x of
        Inl e \<Rightarrow> Inl e
      | Inr ys \<Rightarrow> (case for_each body xs of Inl e \<Rightarrow> Inl e | Inr zs \<Rightarrow> Inr (ys @ zs)))"

text \<open>
  The strings the loops add for one word. Each replacement is written into a fresh copy
  of \<^verbatim>\<open>new_word\<close>, which stays the word itself. \<^verbatim>\<open>self.leetspeak_map[char]\<close> raises
  \<^verbatim>\<open>KeyError\<close> for a character without an entry, and \<^verbatim>\<open>temp_word[pos] = replacement\<close>
  raises \<^verbatim>\<open>IndexError\<close> for a position outside the word.
\<close>

definition leet_variants :: "pystr \<Rightarrow> error + pystr list" where
  "leet_variants word =
     (let positions = leet_positions word in
      if positions \<noteq> [] \<and> length positions \<le> 4 then
        for_each (\<lambda>r.
          for_each (\<lambda>combo.
            for_each (\<lambda>(pos, char).
              (case leetspeak_map char of
                 None \<Rightarrow> Inl KeyError
               | Some rs \<Rightarrow>
                   for_each (\<lambda>replacement.
                     (case py_setitem word pos replacement of
                        Inl e \<Rightarrow> Inl e
                      | Inr temp_word \<Rightarrow> Inr [temp_word]))
                     rs))
              combo)
            (itertools_combinations positions r))
          [1..<min (length positions + 1) 3]
      else Inr [])"

text \<open>The set \<^verbatim>\<open>new_words\<close> when the loop over the store has ended without a raise.\<close>

definition leet_new_words :: "store \<Rightarrow> store" where
  "leet_new_words wordlist =
     (\<Union>word\<in>wordlist. case leet_variants word of Inl e \<Rightarrow> {} | Inr vs \<Rightarrow> set vs)"

text \<open>
  The store after the call, and the count \<^verbatim>\<open>len(new_words)\<close> it reports. The words of
  the store are taken in no fixed order, and every word is taken unless one raises.
  A raise is an \<^verbatim>\<open>IndexError\<close> (lemma \<open>leet_variants_raises\<close> below); it comes before
  \<^verbatim>\<open>self.wordlist.update\<close>, so the store is then as it was and no count is reported.
\<close>

definition apply_leetspeak :: "store \<Rightarrow> store \<times> (error + nat)" where
  "apply_leetspeak wordlist =
     (if \<exists>word\<in>wordlist. isl (leet_variants word) then (wordlist, Inl IndexError)
      else (wordlist \<union> leet_new_words wordlist, Inr (card (leet_new_words wordlist))))"

subsection \<open>Prefix and suffix, length filter\<close>

text \<open>\<^verbatim>\<open>if prefix:\<close> holds for a string that is given and not empty.\<close>

definition given :: "pystr option \<Rightarrow> bool" where
  "given field = (case field of None \<Rightarrow> False | Some s \<Rightarrow> s \<noteq> [])"

definition add_prefix :: "pystr option \<Rightarrow> pystr \<Rightarrow> pystr" where
  "add_prefix prefix modified =
     (case prefix of None \<Rightarrow> modified | Some p \<Rightarrow> if p \<noteq> [] then p @ modified else modified)"

definition add_suffix :: "pystr option \<Rightarrow> pystr \<Rightarrow> pystr" where
  "add_suffix suffix modified =
     (case suffix of None \<Rightarrow> modified | Some s \<Rightarrow> if s \<noteq> [] then modified @ s else modified)"

definition apply_prefix_suffix :: "pystr option \<Rightarrow> pystr option \<Rightarrow> store \<Rightarrow> store" where
  "apply_prefix_suffix prefix suffix wordlist =
     (if \<not> given prefix \<and> \<not> given suffix then wordlist
      else wordlist \<union> (\<lambda>word. add_suffix suffix (add_prefix prefix word)) ` wordlist)"

definition filter_by_length :: "int \<Rightarrow> int \<Rightarrow> store \<Rightarrow> store" where
  "filter_by_length min_len max_len wordlist =
     {w \<in> wordlist. min_len \<le> int (length w) \<and> int (length w) \<le> max_len}"

section \<open>Properties\<close>

subsection \<open>Literals\<close>

lemma length_str [simp]: "length (str s) = length s"
  by (simp add: str_def)

lemma str_Nil [simp]: "str [] = []"
  by (simp add: str_def)

lemma str_eq_Nil [simp]: "str s = [] \<longleftrightarrow> s = []"
  by (simp add: str_def)

lemma str_eq_iff [simp]: "str a = str b \<longleftrightarrow> a = b"
proof -
  have "inj cp" by (rule injI) (simp add: cp_def)
  then show ?thesis by (simp add: str_def inj_map_eq_map)
qed

subsection \<open>Pattern parsing\<close>

declare parse_loop.simps [simp del]

lemma py_slice_two:
  "i + 1 < length p \<Longrightarrow> py_slice p i (i + 2) = [p ! i, p ! (i + 1)]"
  by (simp add: py_slice_def take_Suc_conv_app_nth flip: Cons_nth_drop_Suc)

lemma drop_two:
  "i + 1 < length p \<Longrightarrow> drop i p = p ! i # p ! (i + 1) # drop (i + 2) p"
  by (simp add: Cons_nth_drop_Suc)

lemma drop_last_one:
  "i < length p \<Longrightarrow> \<not> i + 1 < length p \<Longrightarrow> drop i p = [p ! i]"
  by (metis Cons_nth_drop_Suc Suc_eq_plus1 drop_all not_less)

lemma parse_loop_spec:
  "parse_loop p i acc = Inr (acc @ spec_slots (drop i p))"
proof (induction p i acc rule: parse_loop.induct)
  case (1 p i acc)
  show ?case
  proof (cases "i < length p")
    case False
    then show ?thesis by (simp add: parse_loop.simps)
  next
    case lt: True
    have idx: "py_index p i = Inr (p ! i)"
      using lt by (simp add: py_index_def)
    show ?thesis
    proof (cases "i + 1 < length p")
      case True
      have d: "drop i p = p ! i # p ! (i + 1) # drop (i + 2) p"
        using True by (rule drop_two)
      have d1: "drop (i + 1) p = p ! (i + 1) # drop (i + 2) p"
        using True by (simp add: Cons_nth_drop_Suc)
      have s: "py_slice p i (i + 2) = [p ! i, p ! (i + 1)]"
        using True by (rule py_slice_two)
      let ?tok = "if p ! i = cp (CHR ''?'') \<and> i + 1 < length p
                  then charset_map (py_slice p i (i + 2)) else None"
      show ?thesis
      proof (cases ?tok)
        case None
        have step: "parse_loop p i acc = parse_loop p (i + 1) (acc @ [[p ! i]])"
          using lt idx None by (subst parse_loop.simps) simp
        have ih: "parse_loop p (i + 1) (acc @ [[p ! i]]) =
                  Inr ((acc @ [[p ! i]]) @ spec_slots (drop (i + 1) p))"
          using 1(1)[OF lt idx] 1(2)[OF lt idx] None by simp
        have sp: "spec_slots (drop i p) = [p ! i] # spec_slots (drop (i + 1) p)"
          using None True by (simp only: d d1 s spec_slots.simps split: if_splits) simp_all
        show ?thesis by (simp only: step ih sp) simp
      next
        case (Some cs)
        have step: "parse_loop p i acc = parse_loop p (i + 2) (acc @ [cs])"
          using lt idx Some by (subst parse_loop.simps) simp
        have ih: "parse_loop p (i + 2) (acc @ [cs]) =
                  Inr ((acc @ [cs]) @ spec_slots (drop (i + 2) p))"
          using 1(1)[OF lt idx] 1(2)[OF lt idx] Some by simp
        have sp: "spec_slots (drop i p) = cs # spec_slots (drop (i + 2) p)"
          using Some True by (simp only: d s spec_slots.simps split: if_splits) simp_all
        show ?thesis by (simp only: step ih sp) simp
      qed
    next
      case False
      have d: "drop i p = [p ! i]" using lt False by (rule drop_last_one)
      have d1: "drop (i + 1) p = []" using False by simp
      have step: "parse_loop p i acc = parse_loop p (i + 1) (acc @ [[p ! i]])"
        using lt idx False by (subst parse_loop.simps) simp
      have ih: "parse_loop p (i + 1) (acc @ [[p ! i]]) =
                Inr ((acc @ [[p ! i]]) @ spec_slots (drop (i + 1) p))"
        using 1(1)[OF lt idx] 1(2)[OF lt idx] False by simp
      show ?thesis by (simp only: step ih d d1) simp
    qed
  qed
qed

lemma parse_pattern_slots: "parse_pattern p = Inr (spec_slots p)"
  by (simp add: parse_pattern_def parse_loop_spec)

text \<open>
  Claim C6. Parsing a pattern never fails, whatever the string: the loop returns the
  slots the parsing rule gives (a \<open>?\<close> and a next character that name a known
  character set make one expandable slot; every other character, a \<open>?\<close> before an
  unknown character or at the end included, is a literal slot). The pattern \<open>?z\<close>
  parses to the two literal slots \<open>?\<close> and \<open>z\<close>, and a \<open>?\<close> at the end is a literal.
\<close>

theorem parse_pattern_never_fails:
  "parse_pattern p = Inr (spec_slots p)
   \<and> parse_pattern (str ''?z'') = Inr [str ''?'', str ''z'']
   \<and> parse_pattern (str ''?d?'') = Inr [digits, str ''?'']"
  by (simp add: parse_pattern_slots charset_map_def str_def cp_def)

theorem parse_pattern_never_fails_witness:
  "parse_pattern (str ''a?l?z'') = Inr [str ''a'', ascii_lowercase, str ''?'', str ''z'']"
  using parse_pattern_never_fails [of "str ''a?l?z''"]
  by (simp add: charset_map_def str_def cp_def)

subsection \<open>The capped loops\<close>

lemma set_product_replicate:
  "set (itertools_product (replicate n cs)) = {w. length w = n \<and> set w \<subseteq> set cs}"
proof (induction n)
  case 0
  then show ?case by auto
next
  case (Suc n)
  show ?case
  proof (rule set_eqI)
    fix w
    show "w \<in> set (itertools_product (replicate (Suc n) cs)) \<longleftrightarrow>
          w \<in> {w. length w = Suc n \<and> set w \<subseteq> set cs}"
      using Suc by (cases w) auto
  qed
qed

lemma sorted_words_of_lengths:
  "sorted ns \<Longrightarrow> sorted (map length (words_of_lengths cs ns))"
proof (induction ns)
  case Nil
  then show ?case by (simp add: words_of_lengths_def)
next
  case (Cons n ns)
  have a: "\<forall>w \<in> set (itertools_product (replicate (nat n) cs)). length w = nat n"
    by (simp add: set_product_replicate)
  have b: "\<forall>w \<in> set (words_of_lengths cs ns). nat n \<le> length w"
    using Cons.prems by (fastforce simp add: words_of_lengths_def set_product_replicate)
  have c: "sorted (map length (itertools_product (replicate (nat n) cs)))"
    using a by (simp add: sorted_wrt_iff_nth_less)
  have split: "words_of_lengths cs (n # ns) =
               itertools_product (replicate (nat n) cs) @ words_of_lengths cs ns"
    by (simp add: words_of_lengths_def)
  from Cons a b c show ?case
    by (simp add: split sorted_append)
qed

lemma set_words_of_lengths:
  "0 \<le> mn \<Longrightarrow> set (words_of_lengths cs [mn..mx]) =
     {w. set w \<subseteq> set cs \<and> mn \<le> int (length w) \<and> int (length w) \<le> mx}"
  by (auto simp add: words_of_lengths_def set_product_replicate)

lemma product_loop_capped:
  "int g < c \<Longrightarrow>
   product_loop (Some c) ws (wl, g) =
     ((wl \<union> set (take (nat c - g) ws), g + min (length ws) (nat c - g)),
      if nat c - g \<le> length ws then Capped else Finished)"
proof (induction ws arbitrary: wl g)
  case Nil
  then show ?case by simp
next
  case (Cons w ws)
  show ?case
  proof (cases "c \<le> int (g + 1)")
    case True
    with Cons.prems have "nat c - g = 1" by linarith
    with True Cons.prems show ?thesis by (simp add: stop_now_def)
  next
    case False
    then have lt: "int (g + 1) < c" by simp
    from lt have *: "nat c - g = Suc (nat c - (g + 1))" by linarith
    from False Cons.IH[OF lt, of "insert w wl"] show ?thesis
      by (auto simp add: stop_now_def * )
  qed
qed

lemma length_loop_capped:
  "int g < c \<Longrightarrow> \<forall>n \<in> set ns. 0 \<le> n \<Longrightarrow>
   length_loop cs (Some c) ns (wl, g) =
     ((wl \<union> set (take (nat c - g) (words_of_lengths cs ns)),
       g + min (length (words_of_lengths cs ns)) (nat c - g)),
      if nat c - g \<le> length (words_of_lengths cs ns) then Capped else Finished)"
proof (induction ns arbitrary: wl g)
  case Nil
  then show ?case by (simp add: words_of_lengths_def)
next
  case (Cons n ns)
  let ?ws = "itertools_product (replicate (nat n) cs)"
  have n0: "\<not> n < 0" using Cons.prems(2) by simp
  have split: "words_of_lengths cs (n # ns) = ?ws @ words_of_lengths cs ns"
    by (simp add: words_of_lengths_def)
  show ?case
  proof (cases "nat c - g \<le> length ?ws")
    case True
    with n0 Cons.prems(1) show ?thesis
      by (simp add: product_loop_capped split)
  next
    case False
    then have lt: "int (g + length ?ws) < c" by linarith
    have rest: "\<forall>n \<in> set ns. 0 \<le> n" using Cons.prems(2) by simp
    have k: "nat c - g - length ?ws = nat c - (g + length ?ws)" by simp
    from False have m: "min (length ?ws) (nat c - g) = length ?ws" by simp
    from False n0 Cons.prems(1) Cons.IH[OF lt rest, of "wl \<union> set ?ws"] show ?thesis
      by (simp add: product_loop_capped split k m Un_assoc min_def) arith
  qed
qed

lemma stop_now_never: "count = None \<or> count = Some 0 \<Longrightarrow> \<not> stop_now count g"
  by (auto simp add: stop_now_def)

lemma product_loop_uncapped:
  "count = None \<or> count = Some 0 \<Longrightarrow>
   product_loop count ws (wl, g) = ((wl \<union> set ws, g + length ws), Finished)"
  by (induction ws arbitrary: wl g) (auto simp add: stop_now_never)

lemma length_loop_uncapped:
  "count = None \<or> count = Some 0 \<Longrightarrow> \<forall>n \<in> set ns. 0 \<le> n \<Longrightarrow>
   length_loop cs count ns (wl, g) =
     ((wl \<union> set (words_of_lengths cs ns), g + length (words_of_lengths cs ns)), Finished)"
  by (induction ns arbitrary: wl g)
     (auto simp add: words_of_lengths_def product_loop_uncapped)

lemma product_loop_zero_cap: "product_loop (Some 0) ws st = product_loop None ws st"
  by (induction ws arbitrary: st) (auto simp add: stop_now_def)

lemma length_loop_zero_cap: "length_loop cs (Some 0) ns st = length_loop cs None ns st"
  by (induction ns arbitrary: st) (auto simp add: product_loop_zero_cap)

lemma upto_1_2: "[1..2] = [1, 2::int]"
  by (simp add: upto.simps)

lemma words_of_lengths_ab:
  "words_of_lengths (str ''ab'') [1, 2] =
     [str ''a'', str ''b'', str ''aa'', str ''ab'', str ''ba'', str ''bb'']"
  by (simp add: words_of_lengths_def eval_nat_numeral str_def)

lemma cap_example:
  "generate_from_charset (str ''ab'') 1 2 (Some 3) {} =
     (({str ''a'', str ''b'', str ''aa''}, 3), Capped)"
proof -
  have "generate_from_charset (str ''ab'') 1 2 (Some 3) {} =
        length_loop (str ''ab'') (Some 3) [1, 2] ({}, 0)"
    by (simp add: generate_from_charset_def upto_1_2)
  also have "\<dots> = (({} \<union> set (take (nat 3 - 0) (words_of_lengths (str ''ab'') [1, 2])),
       0 + min (length (words_of_lengths (str ''ab'') [1, 2])) (nat 3 - 0)),
      if nat 3 - 0 \<le> length (words_of_lengths (str ''ab'') [1, 2]) then Capped else Finished)"
    by (rule length_loop_capped) simp_all
  also have "\<dots> = (({str ''a'', str ''b'', str ''aa''}, 3), Capped)"
    by (simp add: words_of_lengths_ab eval_nat_numeral) 
  finally show ?thesis .
qed

lemma generate_from_charset_empty_range:
  "max_len < min_len \<Longrightarrow>
   generate_from_charset cs min_len max_len count wl = ((wl, 0), Finished)"
  by (simp add: generate_from_charset_def)

text \<open>A negative first length makes the first enumeration raise, before any word is added.\<close>

lemma negative_length_raises:
  "min_len < 0 \<Longrightarrow> min_len \<le> max_len \<Longrightarrow>
   generate_from_charset cs min_len max_len count wl = ((wl, 0), Raised ValueError)"
  by (simp add: generate_from_charset_def upto_rec1)

text \<open>
  Claim C4, as stated, fails for a negative first length: with the alphabet \<open>ab\<close>, the
  lengths \<open>-1\<close> to \<open>2\<close> and the cap 3 the call raises \<^verbatim>\<open>ValueError\<close> at once and
  produces no string, not even those of length 1.
\<close>

theorem negative_min_length_counterexample:
  "generate_from_charset (str ''ab'') (-1) 2 (Some 3) {} = (({}, 0), Raised ValueError)
   \<and> str ''a'' \<notin> fst (fst (generate_from_charset (str ''ab'') (-1) 2 (Some 3) {}))
   \<and> str ''a'' \<in> set (itertools_product (replicate 1 (str ''ab'')))"
  by (simp add: negative_length_raises str_def)

lemma generate_from_charset_cap:
  assumes "0 \<le> min_len" and "1 \<le> c"
  shows "generate_from_charset cs min_len max_len (Some c) wl =
           ((wl \<union> set (take (nat c) (charset_words cs min_len max_len)),
             min (length (charset_words cs min_len max_len)) (nat c)),
            if nat c \<le> length (charset_words cs min_len max_len) then Capped else Finished)"
proof -
  have "int 0 < c" using assms(2) by simp
  moreover have "\<forall>n \<in> set [min_len..max_len]. 0 \<le> n" using assms(1) by simp
  ultimately show ?thesis
    unfolding generate_from_charset_def charset_words_def
    by (simp add: length_loop_capped)
qed

text \<open>
  Claim C4, amended. For an alphabet, a first length \<open>min_len\<close> that is not negative,
  a last length \<open>max_len\<close> and a cap \<open>c \<ge> 1\<close>: \<^verbatim>\<open>generate_from_charset\<close> adds the
  first \<open>c\<close> words of the enumeration \<open>charset_words\<close> and stops there (with fewer
  words, it adds them all); the enumeration is in ascending length and holds every
  string over the alphabet of each length from \<open>min_len\<close> to \<open>max_len\<close>. With the
  alphabet \<open>ab\<close>, lengths 1 to 2 and the cap 3 exactly three strings are produced: both
  of length 1, then \<open>aa\<close>. When \<open>max_len < min_len\<close> the call adds nothing, whatever
  the cap.
\<close>

theorem generate_from_charset_capped:
  "(0 \<le> min_len \<and> 1 \<le> c \<longrightarrow>
      generate_from_charset cs min_len max_len (Some c) wl =
        ((wl \<union> set (take (nat c) (charset_words cs min_len max_len)),
          min (length (charset_words cs min_len max_len)) (nat c)),
         if nat c \<le> length (charset_words cs min_len max_len) then Capped else Finished)
      \<and> sorted (map length (charset_words cs min_len max_len))
      \<and> set (charset_words cs min_len max_len) =
          {w. set w \<subseteq> set cs \<and> min_len \<le> int (length w) \<and> int (length w) \<le> max_len})
   \<and> generate_from_charset (str ''ab'') 1 2 (Some 3) {} = (({str ''a'', str ''b'', str ''aa''}, 3), Capped)
   \<and> take 3 (charset_words (str ''ab'') 1 2) = [str ''a'', str ''b'', str ''aa'']
   \<and> (max_len < min_len \<longrightarrow>
        generate_from_charset cs min_len max_len count wl = ((wl, 0), Finished))"
proof (intro conjI impI)
  assume h: "0 \<le> min_len \<and> 1 \<le> c"
  then show "generate_from_charset cs min_len max_len (Some c) wl =
        ((wl \<union> set (take (nat c) (charset_words cs min_len max_len)),
          min (length (charset_words cs min_len max_len)) (nat c)),
         if nat c \<le> length (charset_words cs min_len max_len) then Capped else Finished)"
    by (simp add: generate_from_charset_cap)
  show "sorted (map length (charset_words cs min_len max_len))"
    unfolding charset_words_def by (rule sorted_words_of_lengths) simp
  from h show "set (charset_words cs min_len max_len) =
          {w. set w \<subseteq> set cs \<and> min_len \<le> int (length w) \<and> int (length w) \<le> max_len}"
    unfolding charset_words_def by (simp add: set_words_of_lengths)
next
  show "generate_from_charset (str ''ab'') 1 2 (Some 3) {} = (({str ''a'', str ''b'', str ''aa''}, 3), Capped)"
    by (rule cap_example)
  show "take 3 (charset_words (str ''ab'') 1 2) = [str ''a'', str ''b'', str ''aa'']"
    by (simp add: charset_words_def upto_1_2 words_of_lengths_ab)
next
  assume "max_len < min_len"
  then show "generate_from_charset cs min_len max_len count wl = ((wl, 0), Finished)"
    by (rule generate_from_charset_empty_range)
qed

lemma upto_0_1: "[0..1] = [0, 1::int]"
  by (simp add: upto.simps)

lemma charset_words_xy: "charset_words (str ''xy'') 0 1 = [str '''', str ''x'', str ''y'']"
  by (simp add: charset_words_def words_of_lengths_def upto_0_1 str_def)

theorem generate_from_charset_capped_witness:
  "generate_from_charset (str ''xy'') 0 1 (Some 2) {str ''q''} = (({str ''q'', str '''', str ''x''}, 2), Capped)
   \<and> sorted (map length (charset_words (str ''xy'') 0 1))
   \<and> generate_from_charset (str ''xy'') 3 1 (Some 2) {str ''q''} = (({str ''q''}, 0), Finished)"
proof -
  note t1 = generate_from_charset_capped [of 0 2 "(str ''xy'')" 1 "{str ''q''}" "Some 2", THEN conjunct1]
  note t2 = generate_from_charset_capped [of 3 2 "(str ''xy'')" 1 "{str ''q''}" "Some 2",
      THEN conjunct2, THEN conjunct2, THEN conjunct2]
  from t1 have "generate_from_charset (str ''xy'') 0 1 (Some 2) {str ''q''} =
      (({str ''q'', str '''', str ''x''}, 2), Capped)"
    by (simp add: charset_words_xy eval_nat_numeral insert_commute)
  moreover from t1 have "sorted (map length (charset_words (str ''xy'') 0 1))"
    by simp
  moreover from t2 have "generate_from_charset (str ''xy'') 3 1 (Some 2) {str ''q''} =
      (({str ''q''}, 0), Finished)"
    by simp
  ultimately show ?thesis by simp
qed

lemma generate_from_pattern_uncapped:
  "count = None \<or> count = Some 0 \<Longrightarrow>
   generate_from_pattern p count wl =
     ((wl \<union> set (pattern_words p), length (pattern_words p)), Finished)"
  by (simp add: generate_from_pattern_def pattern_words_def parse_pattern_slots
      product_loop_uncapped)

lemma generate_from_charset_uncapped:
  "count = None \<or> count = Some 0 \<Longrightarrow> 0 \<le> min_len \<Longrightarrow>
   generate_from_charset cs min_len max_len count wl =
     ((wl \<union> set (charset_words cs min_len max_len),
       length (charset_words cs min_len max_len)), Finished)"
  by (simp add: generate_from_charset_def charset_words_def length_loop_uncapped)

text \<open>
  Claim C9. A cap of \<open>0\<close> is no cap: \<^verbatim>\<open>generate_from_pattern\<close> and
  \<^verbatim>\<open>generate_from_charset\<close> called with \<open>count = 0\<close> do what they do with no count,
  and the enumeration runs to its end: every word of the pattern, or (for lengths that
  are not negative) every word of the alphabet in the length range, is in the store.
\<close>

theorem zero_cap_is_no_cap:
  "generate_from_pattern p (Some 0) wl = generate_from_pattern p None wl
   \<and> generate_from_pattern p (Some 0) wl =
       ((wl \<union> set (pattern_words p), length (pattern_words p)), Finished)
   \<and> generate_from_charset cs min_len max_len (Some 0) wl =
       generate_from_charset cs min_len max_len None wl
   \<and> (0 \<le> min_len \<longrightarrow>
        generate_from_charset cs min_len max_len (Some 0) wl =
          ((wl \<union> set (charset_words cs min_len max_len),
            length (charset_words cs min_len max_len)), Finished))"
proof (intro conjI impI)
  show "generate_from_pattern p (Some 0) wl = generate_from_pattern p None wl"
    by (simp add: generate_from_pattern_uncapped)
  show "generate_from_pattern p (Some 0) wl =
       ((wl \<union> set (pattern_words p), length (pattern_words p)), Finished)"
    by (simp add: generate_from_pattern_uncapped)
  show "generate_from_charset cs min_len max_len (Some 0) wl =
       generate_from_charset cs min_len max_len None wl"
    by (simp add: generate_from_charset_def length_loop_zero_cap)
next
  assume "0 \<le> min_len"
  then show "generate_from_charset cs min_len max_len (Some 0) wl =
          ((wl \<union> set (charset_words cs min_len max_len),
            length (charset_words cs min_len max_len)), Finished)"
    by (simp add: generate_from_charset_uncapped)
qed

lemma pattern_words_example: "pattern_words (str ''a?z'') = [str ''a?z'']"
  by (simp add: pattern_words_def parse_pattern_slots charset_map_def str_def cp_def)

theorem zero_cap_is_no_cap_witness:
  "generate_from_pattern (str ''a?z'') (Some 0) {} = (({str ''a?z''}, 1), Finished)
   \<and> generate_from_charset (str ''xy'') 0 1 (Some 0) {} = (({str '''', str ''x'', str ''y''}, 3), Finished)"
proof -
  note t = zero_cap_is_no_cap [of "str ''a?z''" "{}" "(str ''xy'')" 0 1]
  from t [THEN conjunct2, THEN conjunct1]
  have "generate_from_pattern (str ''a?z'') (Some 0) {} = (({str ''a?z''}, 1), Finished)"
    by (simp add: pattern_words_example)
  moreover from t [THEN conjunct2, THEN conjunct2, THEN conjunct2] have
    "generate_from_charset (str ''xy'') 0 1 (Some 0) {} = (({str '''', str ''x'', str ''y''}, 3), Finished)"
    by (simp add: charset_words_xy)
  ultimately show ?thesis by simp
qed

subsection \<open>Length filter\<close>

lemma filter_by_length_insert:
  "filter_by_length min_len max_len (insert w wl) =
     (if min_len \<le> int (length w) \<and> int (length w) \<le> max_len
      then insert w (filter_by_length min_len max_len wl)
      else filter_by_length min_len max_len wl)"
  by (auto simp add: filter_by_length_def)

lemma filter_by_length_empty: "filter_by_length min_len max_len {} = {}"
  by (simp add: filter_by_length_def)

text \<open>
  Claim C7. After \<^verbatim>\<open>filter_by_length\<close> the store is exactly the set of its former
  words whose length lies in the closed interval from \<open>min_len\<close> to \<open>max_len\<close>: every
  word that stays is in range, every word in range stays, and nothing is added. This
  holds for all bounds, so in particular for \<open>min_len \<le> max_len\<close>.
\<close>

theorem filter_by_length_exact:
  "filter_by_length min_len max_len wl =
     {w \<in> wl. min_len \<le> int (length w) \<and> int (length w) \<le> max_len}
   \<and> (\<forall>w \<in> filter_by_length min_len max_len wl.
          min_len \<le> int (length w) \<and> int (length w) \<le> max_len)
   \<and> (\<forall>w \<in> wl. min_len \<le> int (length w) \<and> int (length w) \<le> max_len \<longrightarrow>
          w \<in> filter_by_length min_len max_len wl)
   \<and> filter_by_length min_len max_len wl \<subseteq> wl"
  unfolding filter_by_length_def by blast

theorem filter_by_length_exact_witness:
  "(4::int) \<le> 12
   \<and> (str ''abcd'') \<in> filter_by_length 4 12 {str ''abc'', str ''abcd'', str ''abcdefghijklm'', str ''password1234''}
   \<and> filter_by_length 4 12 {str ''abc'', str ''abcd'', str ''abcdefghijklm'', str ''password1234''} =
       {str ''abcd'', str ''password1234''}"
proof -
  note t = filter_by_length_exact
    [of 4 12 "{str ''abc'', str ''abcd'', str ''abcdefghijklm'', str ''password1234''}"]
  from t [THEN conjunct2, THEN conjunct2, THEN conjunct1, rule_format, of "str ''abcd''"]
  have "(str ''abcd'') \<in> filter_by_length 4 12
          {str ''abc'', str ''abcd'', str ''abcdefghijklm'', str ''password1234''}"
    by simp
  moreover
  have "filter_by_length 4 12 {str ''abc'', str ''abcd'', str ''abcdefghijklm'', str ''password1234''} =
     {str ''abcd'', str ''password1234''}"
    by (simp add: filter_by_length_insert filter_by_length_empty)
  ultimately show ?thesis by simp
qed

subsection \<open>Generation only adds\<close>

lemma product_loop_superset: "wl \<subseteq> fst (fst (product_loop count ws (wl, g)))"
proof (induction ws arbitrary: wl g)
  case Nil
  then show ?case by simp
next
  case (Cons w ws)
  have "wl \<subseteq> insert w wl" by (rule subset_insertI)
  also have "insert w wl \<subseteq> fst (fst (product_loop count ws (insert w wl, g + 1)))"
    by (rule Cons.IH)
  finally show ?case by auto
qed

lemma length_loop_superset: "fst st \<subseteq> fst (fst (length_loop cs count ns st))"
proof (induction ns arbitrary: st)
  case Nil
  then show ?case by simp
next
  case (Cons n ns)
  obtain wl g where st: "st = (wl, g)" by (cases st)
  obtain st' ex where run: 
    "product_loop count (itertools_product (replicate (nat n) cs)) (wl, g) = (st', ex)"
    by (cases "product_loop count (itertools_product (replicate (nat n) cs)) (wl, g)")
  have a: "wl \<subseteq> fst st'"
    using product_loop_superset[of wl count "itertools_product (replicate (nat n) cs)" g]
    by (simp add: run)
  have b: "fst st' \<subseteq> fst (fst (length_loop cs count ns st'))"
    by (rule Cons.IH)
  show ?case
    using a b by (cases ex) (auto simp add: st run)
qed

lemma fold_insert_set: "fold insert xs A = set xs \<union> A"
  by (induction xs arbitrary: A) auto

lemma add_personal_info_set:
  "add_personal_info_combinations r wl =
     wl \<union> set (concat (map (word_insertions (dob_variants (dob r)) (phone_variants (phone r)))
                  (base_words r)) @ pair_insertions (base_words r))"
  unfolding add_personal_info_combinations_def fold_insert_set by (rule Un_commute)

text \<open>
  Claim C8. Generation and transformation only add: after \<^verbatim>\<open>generate_from_pattern\<close>,
  \<^verbatim>\<open>generate_from_charset\<close>, \<^verbatim>\<open>add_personal_info_combinations\<close>,
  \<^verbatim>\<open>apply_leetspeak\<close> and \<^verbatim>\<open>apply_prefix_suffix\<close> the store holds every word it held
  before, for every store and all arguments (also when \<^verbatim>\<open>generate_from_charset\<close>
  raises for a negative length: it has added nothing then).
\<close>

theorem generation_is_additive:
  "wl \<subseteq> fst (fst (generate_from_pattern pattern count wl))
   \<and> wl \<subseteq> fst (fst (generate_from_charset charset min_len max_len count wl))
   \<and> wl \<subseteq> add_personal_info_combinations r wl
   \<and> wl \<subseteq> fst (apply_leetspeak wl)
   \<and> wl \<subseteq> apply_prefix_suffix prefix suffix wl"
proof (intro conjI)
  show "wl \<subseteq> fst (fst (generate_from_pattern pattern count wl))"
    using product_loop_superset[of wl count _ 0]
    by (simp add: generate_from_pattern_def split: sum.split)
  show "wl \<subseteq> fst (fst (generate_from_charset charset min_len max_len count wl))"
    using length_loop_superset[of "(wl, 0)" charset count "[min_len..max_len]"]
    by (simp add: generate_from_charset_def)
  show "wl \<subseteq> add_personal_info_combinations r wl"
    by (simp add: add_personal_info_set)
  show "wl \<subseteq> fst (apply_leetspeak wl)"
    by (simp add: apply_leetspeak_def)
  show "wl \<subseteq> apply_prefix_suffix prefix suffix wl"
    by (simp add: apply_prefix_suffix_def)
qed

theorem generation_is_additive_witness:
  "{str ''old''} \<subseteq> fst (fst (generate_from_pattern (str ''?d'') (Some 2) {str ''old''}))
   \<and> {str ''old''} \<subseteq> fst (fst (generate_from_charset (str ''ab'') (-1) 2 (Some 2) {str ''old''}))
   \<and> {str ''old''} \<subseteq> add_personal_info_combinations
        \<lparr>name = Some (str ''Al''), phone = None, dob = None, father_name = None,
         mother_name = None, place = None\<rparr> {str ''old''}
   \<and> {str ''old''} \<subseteq> fst (apply_leetspeak {str ''old''})
   \<and> {str ''old''} \<subseteq> apply_prefix_suffix (Some (str ''x'')) None {str ''old''}"
  using generation_is_additive [of "{str ''old''}" "(str ''?d'')" "Some 2" "(str ''ab'')" "-1" 2
    "\<lparr>name = Some (str ''Al''), phone = None, dob = None, father_name = None,
      mother_name = None, place = None\<rparr>" "Some (str ''x'')" None]
  by simp

subsection \<open>Date variants\<close>

lemma dob_variants_example:
  "dob_variants (Some (str ''15/08/1990'')) =
     [str ''15081990'', str ''15081990'', str ''150890'', str ''1990'', str ''90'', str ''1508'', str ''081990'']"
  by code_simp

lemma dob_variants_short:
  "length (dob_clean d) < 8 \<Longrightarrow> dob_variants (Some d) = []"
  by (simp add: dob_variants_def)

text \<open>
  Claim C5. The date of birth \<open>15/08/1990\<close> gives date variants that include
  \<open>15081990\<close>, \<open>150890\<close>, \<open>1990\<close>, \<open>90\<close>, \<open>1508\<close> and \<open>081990\<close>. A date of birth with
  fewer than 8 characters left once \<open>/\<close> and \<open>-\<close> are stripped gives no variants, and
  \<^verbatim>\<open>add_personal_info_combinations\<close> then does what it does with no date of birth
  (nothing in it can raise).
\<close>

theorem dob_variants_derivation:
  "set [str ''15081990'', str ''150890'', str ''1990'', str ''90'', str ''1508'', str ''081990'']
     \<subseteq> set (dob_variants (Some (str ''15/08/1990'')))
   \<and> (length (dob_clean d) < 8 \<longrightarrow>
        dob_variants (Some d) = []
        \<and> add_personal_info_combinations (r\<lparr>dob := Some d\<rparr>) wl =
          add_personal_info_combinations (r\<lparr>dob := None\<rparr>) wl)"
proof (intro conjI impI)
  show "set [str ''15081990'', str ''150890'', str ''1990'', str ''90'', str ''1508'', str ''081990'']
     \<subseteq> set (dob_variants (Some (str ''15/08/1990'')))"
    by (simp add: dob_variants_example)
next
  assume short: "length (dob_clean d) < 8"
  then show none: "dob_variants (Some d) = []" by (rule dob_variants_short)
  have "dob_variants (Some d) = dob_variants None"
    unfolding none by (simp add: dob_variants_def)
  then show "add_personal_info_combinations (r\<lparr>dob := Some d\<rparr>) wl =
          add_personal_info_combinations (r\<lparr>dob := None\<rparr>) wl"
    by (simp add: add_personal_info_combinations_def base_words_def)
qed

lemma dob_clean_example: "dob_clean (str ''1/2/1990'') = str ''121990''"
  by code_simp

theorem dob_variants_derivation_witness:
  "length (dob_clean (str ''1/2/1990'')) < 8
   \<and> dob_variants (Some (str ''1/2/1990'')) = []
   \<and> add_personal_info_combinations
        \<lparr>name = Some (str ''Al''), phone = None, dob = Some (str ''1/2/1990''), father_name = None,
         mother_name = None, place = None\<rparr> {} =
       add_personal_info_combinations
        \<lparr>name = Some (str ''Al''), phone = None, dob = None, father_name = None,
         mother_name = None, place = None\<rparr> {}"
proof -
  have short: "length (dob_clean (str ''1/2/1990'')) < 8"
    by (simp add: dob_clean_example)
  note t = dob_variants_derivation [of "str ''1/2/1990''"
      "\<lparr>name = Some (str ''Al''), phone = None, dob = None, father_name = None,
        mother_name = None, place = None\<rparr>" "{}",
      THEN conjunct2, rule_format, OF short]
  from short t show ?thesis by simp
qed

subsection \<open>Base words\<close>

text \<open>
  Claim C2, as stated, fails: for the name \<open>aBc\<close> the title-case form with the other
  characters unchanged would be \<open>ABc\<close>, and the base words are \<open>aBc\<close>, \<open>abc\<close>,
  \<open>ABC\<close> and \<open>Abc\<close>: \<^verbatim>\<open>str.capitalize\<close> lower-cases the rest.
\<close>

theorem title_case_keeps_rest_counterexample:
  "base_words \<lparr>name = Some (str ''aBc''), phone = None, dob = None, father_name = None,
               mother_name = None, place = None\<rparr>
     \<noteq> [str ''aBc'', lower (str ''aBc''), upper (str ''aBc''), spec_title_case (str ''aBc'')]
   \<and> spec_title_case (str ''aBc'') = str ''ABc''
   \<and> spec_title_case (str ''aBc'') \<notin> set (base_words
        \<lparr>name = Some (str ''aBc''), phone = None, dob = None, father_name = None,
         mother_name = None, place = None\<rparr>)"
  by code_simp

text \<open>
  Claim C2, amended. For a name (and likewise a place) that is given and not empty, the
  base words it yields are the original form, the lower-cased form, the upper-cased form
  and the capitalised form, whose first character is upper-cased and whose other
  characters are lower-cased; for the father's or mother's name they are the original,
  the lower-cased and the same capitalised form, with no upper-cased form. Each field
  yields its words whatever the other fields are: the list is the words of the name,
  of the father's name, of the mother's name and of the place, one after the other.
\<close>

theorem base_words_forms:
  "(name r = Some n \<and> n \<noteq> [] \<and> \<not> given (father_name r) \<and> \<not> given (mother_name r)
      \<and> \<not> given (place r) \<longrightarrow>
      base_words r = [n, lower n, upper n, capitalize n])
   \<and> (place r = Some p \<and> p \<noteq> [] \<and> \<not> given (name r) \<and> \<not> given (father_name r)
      \<and> \<not> given (mother_name r) \<longrightarrow>
      base_words r = [p, lower p, upper p, capitalize p])
   \<and> (father_name r = Some f \<and> f \<noteq> [] \<and> \<not> given (name r) \<and> \<not> given (mother_name r)
      \<and> \<not> given (place r) \<longrightarrow>
      base_words r = [f, lower f, capitalize f])
   \<and> (mother_name r = Some m \<and> m \<noteq> [] \<and> \<not> given (name r) \<and> \<not> given (father_name r)
      \<and> \<not> given (place r) \<longrightarrow>
      base_words r = [m, lower m, capitalize m])
   \<and> base_words r =
       base_words (r\<lparr>father_name := None, mother_name := None, place := None\<rparr>) @
       base_words (r\<lparr>name := None, mother_name := None, place := None\<rparr>) @
       base_words (r\<lparr>name := None, father_name := None, place := None\<rparr>) @
       base_words (r\<lparr>name := None, father_name := None, mother_name := None\<rparr>)
   \<and> capitalize (c # cs) = upper_char c # lower cs"
proof (intro conjI)
  show "base_words r =
       base_words (r\<lparr>father_name := None, mother_name := None, place := None\<rparr>) @
       base_words (r\<lparr>name := None, mother_name := None, place := None\<rparr>) @
       base_words (r\<lparr>name := None, father_name := None, place := None\<rparr>) @
       base_words (r\<lparr>name := None, father_name := None, mother_name := None\<rparr>)"
    by (simp add: base_words_def)
qed (auto simp add: base_words_def given_def lower_def split: option.splits)

theorem base_words_forms_witness:
  "base_words \<lparr>name = Some (str ''aBc''), phone = None, dob = None, father_name = None,
               mother_name = None, place = None\<rparr> =
     [str ''aBc'', lower (str ''aBc''), upper (str ''aBc''), capitalize (str ''aBc'')]
   \<and> capitalize (str ''aBc'') = str ''Abc''
   \<and> base_words \<lparr>name = None, phone = None, dob = None, father_name = Some (str ''xY''),
               mother_name = None, place = None\<rparr> =
     [str ''xY'', lower (str ''xY''), capitalize (str ''xY'')]
   \<and> capitalize (str ''xY'') = (str ''Xy'')"
proof -
  note t1 = base_words_forms [of
      "\<lparr>name = Some (str ''aBc''), phone = None, dob = None, father_name = None,
        mother_name = None, place = None\<rparr>" "(str ''aBc'')", THEN conjunct1, rule_format]
  note t2 = base_words_forms [of
      "\<lparr>name = None, phone = None, dob = None, father_name = Some (str ''xY''),
        mother_name = None, place = None\<rparr>" _ _ "(str ''xY'')",
      THEN conjunct2, THEN conjunct2, THEN conjunct1, rule_format]
  have "base_words \<lparr>name = Some (str ''aBc''), phone = None, dob = None, father_name = None,
               mother_name = None, place = None\<rparr> =
     [str ''aBc'', lower (str ''aBc''), upper (str ''aBc''), capitalize (str ''aBc'')]"
    by (rule t1) (simp add: given_def)
  moreover
  have "base_words \<lparr>name = None, phone = None, dob = None, father_name = Some (str ''xY''),
               mother_name = None, place = None\<rparr> =
     [str ''xY'', lower (str ''xY''), capitalize (str ''xY'')]"
    by (rule t2) (simp add: given_def)
  moreover have "capitalize (str ''aBc'') = (str ''Abc'')" by code_simp
  moreover have "capitalize (str ''xY'') = (str ''Xy'')" by code_simp
  ultimately show ?thesis by simp
qed

subsection \<open>Leetspeak\<close>
















lemma leet_new_words_insert:
  "leet_new_words (insert w wl) =
     (case leet_variants w of Inl e \<Rightarrow> {} | Inr vs \<Rightarrow> set vs) \<union> leet_new_words wl"
  by (simp add: leet_new_words_def)

lemma leet_new_words_empty: "leet_new_words {} = {}"
  by (simp add: leet_new_words_def)

lemma leet_variants_ae:
  "leet_variants (str ''ae'') =
     Inr [str ''4e'', str ''@e'', str ''a3'', str ''4e'', str ''@e'', str ''a3'']"
  by code_simp

lemma leet_variants_a: "leet_variants (str ''a'') = Inr [str ''4'', str ''@'']"
  by code_simp

lemma leet_variants_4: "leet_variants (str ''4'') = Inr []"
  by code_simp



lemma apply_leetspeak_ae:
  "apply_leetspeak {str ''ae''} =
     ({str ''ae'', str ''4e'', str ''@e'', str ''a3''}, Inr 3)"
  by (simp add: apply_leetspeak_def leet_new_words_insert leet_new_words_empty
      leet_variants_ae insert_commute)

lemma apply_leetspeak_a_4:
  "apply_leetspeak {str ''a'', str ''4''} = ({str ''a'', str ''4'', str ''@''}, Inr 2)"
  by (simp add: apply_leetspeak_def leet_new_words_insert leet_new_words_empty
      leet_variants_a leet_variants_4 insert_commute)


text \<open>
  Claim C1, on the code. The word \<open>ae\<close> has the two substitutable positions 0 and 1,
  so the claim asks for the strings with both positions replaced, \<open>43\<close> and \<open>@3\<close>.
  The call generates the three single replacements only: the loop over a pair of
  positions writes each replacement into a fresh copy of the unchanged word.
\<close>

theorem leetspeak_pair_not_substituted:
  "leet_positions (str ''ae'') = [(0, cp (CHR ''a'')), (1, cp (CHR ''e''))]
   \<and> apply_leetspeak {str ''ae''} = ({str ''ae'', str ''4e'', str ''@e'', str ''a3''}, Inr 3)
   \<and> str ''43'' \<notin> fst (apply_leetspeak {str ''ae''})
   \<and> str ''@3'' \<notin> fst (apply_leetspeak {str ''ae''})"
proof -
  have "leet_positions (str ''ae'') = [(0, cp (CHR ''a'')), (1, cp (CHR ''e''))]"
    by code_simp
  then show ?thesis by (simp add: apply_leetspeak_ae)
qed

text \<open>
  Claim C3, on the code. On the store \<open>{a, 4}\<close> the call generates \<open>4\<close> and \<open>@\<close> and
  reports 2 variations added, while the store has grown by one entry, \<open>@\<close>.
\<close>

theorem leetspeak_count_not_growth:
  "apply_leetspeak {str ''a'', str ''4''} = ({str ''a'', str ''4'', str ''@''}, Inr 2)
   \<and> card (fst (apply_leetspeak {str ''a'', str ''4''}) - {str ''a'', str ''4''}) = 1
   \<and> card (fst (apply_leetspeak {str ''a'', str ''4''})) - card {str ''a'', str ''4''} = 1"
proof -
  have "fst (apply_leetspeak {str ''a'', str ''4''}) - {str ''a'', str ''4''} = {str ''@''}"
    by (auto simp add: apply_leetspeak_a_4)
  then show ?thesis by (simp add: apply_leetspeak_a_4)
qed

end
